theory Spec2Isabelle
  imports Main "HOL-Library.Sublist"
begin

section \<open>The presentation layer (App component)\<close>

text \<open>
  The App component keeps two pieces of React state, \<open>originalText\<close> and
  \<open>encryptedText\<close>, and talks to the cipher engine through
  \<open>invoke('enigma_process_string', {config, text})\<close>. The engine lives behind the
  Tauri bridge and is a parameter of the model: a function from the request to either a
  rejection (\<open>Inl\<close>, the branch the \<open>catch\<close> handles) or the returned string
  (\<open>Inr\<close>). Every call made through the bridge is recorded, in order, in the field
  \<open>invocations\<close>, which is the trace of the component's one effect.

  The handlers are modelled one event at a time: the state updater of
  \<open>handleKeyPress\<close> runs once per keystroke and the promise of
  \<open>processEncryption\<close> settles before the next event is handled.
\<close>

subsection \<open>Strings\<close>

text \<open>
  Keys and texts are JavaScript strings; every character the handlers let through is an
  ASCII letter or a space, on which \<open>toUpperCase\<close> and \<open>toLowerCase\<close> act
  letter by letter and leave every other ASCII character alone.
\<close>

definition isUpper :: "char \<Rightarrow> bool" where
  "isUpper c = (65 \<le> (of_char c :: nat) \<and> (of_char c :: nat) \<le> 90)"

definition isLower :: "char \<Rightarrow> bool" where
  "isLower c = (97 \<le> (of_char c :: nat) \<and> (of_char c :: nat) \<le> 122)"

definition upperChar :: "char \<Rightarrow> char" where
  "upperChar c = (if isLower c then char_of ((of_char c :: nat) - 32) else c)"

definition lowerChar :: "char \<Rightarrow> char" where
  "lowerChar c = (if isUpper c then char_of ((of_char c :: nat) + 32) else c)"

definition toUpperCase :: "string \<Rightarrow> string" where
  "toUpperCase s = map upperChar s"

definition toLowerCase :: "string \<Rightarrow> string" where
  "toLowerCase s = map lowerChar s"

text \<open>The test \<open>/^[A-Za-z]$/.test(key)\<close>: the key is exactly one ASCII letter.\<close>

definition isLetterKey :: "string \<Rightarrow> bool" where
  "isLetterKey key = (case key of [c] \<Rightarrow> isUpper c \<or> isLower c | _ \<Rightarrow> False)"

subsection \<open>The request and the component state\<close>

record RotorInit =
  name :: string
  position :: string
  ring :: string

record RawConfig =
  rotors :: "RotorInit \<times> RotorInit \<times> RotorInit"
  reflector :: string
  plugboard_pairs :: string

record app_state =
  originalText :: string
  encryptedText :: string
  invocations :: "(RawConfig \<times> string) list"

type_synonym 'e engine = "RawConfig \<Rightarrow> string \<Rightarrow> 'e + string"

definition initialState :: app_state where
  "initialState = \<lparr>originalText = [], encryptedText = [], invocations = []\<rparr>"

definition getDefaultConfig :: RawConfig where
  "getDefaultConfig =
     \<lparr>rotors = (\<lparr>name = ''I'', position = ''A'', ring = ''A''\<rparr>,
                \<lparr>name = ''II'', position = ''A'', ring = ''A''\<rparr>,
                \<lparr>name = ''III'', position = ''A'', ring = ''A''\<rparr>),
      reflector = ''B'',
      plugboard_pairs = []\<rparr>"

subsection \<open>The handlers\<close>

definition processEncryption :: "'e engine \<Rightarrow> string \<Rightarrow> app_state \<Rightarrow> app_state" where
  "processEncryption invoke text s =
     (let config = getDefaultConfig;
          arg = toUpperCase text;
          s1 = s\<lparr>invocations := invocations s @ [(config, arg)]\<rparr>
      in case invoke config arg of
           Inr encrypted \<Rightarrow> s1\<lparr>encryptedText := encrypted\<rparr>
         | Inl _ \<Rightarrow> s1\<lparr>encryptedText := encryptedText s1 @ ''?''\<rparr>)"

definition handleKeyPress :: "'e engine \<Rightarrow> string \<Rightarrow> app_state \<Rightarrow> app_state" where
  "handleKeyPress invoke key s =
     (if key = '' '' then
        s\<lparr>originalText := originalText s @ '' '',
          encryptedText := encryptedText s @ '' ''\<rparr>
      else if \<not> isLetterKey key then s
      else
        (let updated = originalText s @ toLowerCase key
         in processEncryption invoke updated (s\<lparr>originalText := updated\<rparr>)))"

definition handleClear :: "app_state \<Rightarrow> app_state" where
  "handleClear s = s\<lparr>originalText := [], encryptedText := []\<rparr>"

text \<open>
  The keydown listener forwards \<open>event.key\<close>; the buttons of the on-screen keyboard
  forward their own label or the space, and both erasers call \<open>handleClear\<close>.
\<close>

definition handlePhysicalKeyPress :: "'e engine \<Rightarrow> string \<Rightarrow> app_state \<Rightarrow> app_state" where
  "handlePhysicalKeyPress invoke eventKey s = handleKeyPress invoke eventKey s"

definition keyboardRows :: "string list list" where
  "keyboardRows =
     [[''Q'', ''W'', ''E'', ''R'', ''T'', ''Y'', ''U'', ''I'', ''O'', ''P''],
      [''A'', ''S'', ''D'', ''F'', ''G'', ''H'', ''J'', ''K'', ''L''],
      [''Z'', ''X'', ''C'', ''V'', ''B'', ''N'', ''M'']]"

definition onKeyPress :: "'e engine \<Rightarrow> string \<Rightarrow> app_state \<Rightarrow> app_state" where
  "onKeyPress invoke key s = handleKeyPress invoke key s"

datatype event = VirtualKey string | PhysicalKey string | Clear

fun handleEvent :: "'e engine \<Rightarrow> event \<Rightarrow> app_state \<Rightarrow> app_state" where
  "handleEvent invoke (VirtualKey key) s = onKeyPress invoke key s"
| "handleEvent invoke (PhysicalKey key) s = handlePhysicalKeyPress invoke key s"
| "handleEvent invoke Clear s = handleClear s"

fun runEvents :: "'e engine \<Rightarrow> event list \<Rightarrow> app_state \<Rightarrow> app_state" where
  "runEvents invoke [] s = s"
| "runEvents invoke (e # es) s = runEvents invoke es (handleEvent invoke e s)"

section \<open>The cipher engine\<close>

text \<open>
  The engine behind \<open>enigma_process_string\<close> is not among the sources at hand; only
  its caller is. Every definition of this section follows the engine's specification,
  component by component: Permutation, Rotor, Plugboard, Reflector, Machine,
  ConfigValidator.
\<close>

text \<open>Modelled from the spec: the error taxonomy of the engine (section 7), which is
  missing from the sources.\<close>

datatype error =
    InvalidPermutation
  | UnknownRotor
  | UnknownReflector
  | DuplicateRotor
  | InvalidSetting
  | InvalidPlugboard

text \<open>Modelled from the spec: the Letter of the data model (section 3), an integer in
  [0,25] standing for A-Z, which is missing from the sources.\<close>

type_synonym Letter = nat

text \<open>Modelled from the spec: the boundary between characters A-Z and Letters (section
  3), which is missing from the sources; from a character to its Letter.\<close>

definition letterOfChar :: "char \<Rightarrow> Letter" where
  "letterOfChar c = (of_char c :: nat) - 65"

text \<open>Modelled from the spec: the boundary between characters A-Z and Letters (section
  3), which is missing from the sources; from a Letter back to its character.\<close>

definition charOfLetter :: "Letter \<Rightarrow> char" where
  "charOfLetter x = char_of (x + 65)"

text \<open>Modelled from the spec: what the engine takes for a letter (section 4.7, "letters,
  case-insensitive"), which is missing from the sources.\<close>

definition isLetterChar :: "char \<Rightarrow> bool" where
  "isLetterChar c = (isUpper c \<or> isLower c)"

subsection \<open>Permutation\<close>

text \<open>Modelled from the spec: the Permutation of the data model (sections 3 and 4.1),
  which is missing from the sources: the table of the 26 targets of \<open>forward\<close>.\<close>

type_synonym Permutation = "Letter list"

text \<open>Modelled from the spec: the condition of Permutation construction (section 4.1),
  which is missing from the sources: a table of length 26 without duplicate or
  out-of-range entries.\<close>

definition isBijection :: "Letter list \<Rightarrow> bool" where
  "isBijection t = (length t = 26 \<and> distinct t \<and> list_all (\<lambda>y. y < 26) t)"

text \<open>Modelled from the spec: Permutation construction (section 4.1), which is missing
  from the sources; it fails with \<open>InvalidPermutation\<close>.\<close>

definition mkPermutation :: "Letter list \<Rightarrow> error + Permutation" where
  "mkPermutation t = (if isBijection t then Inr t else Inl InvalidPermutation)"

text \<open>Modelled from the spec: \<open>Permutation.apply\<close> (section 4.1), which is missing from
  the sources.\<close>

definition applyPerm :: "Permutation \<Rightarrow> Letter \<Rightarrow> Letter" where
  "applyPerm p x = p ! x"

text \<open>Modelled from the spec: the derivable inverse of a Permutation (section 3), which
  is missing from the sources: the place of a target in the table.\<close>

fun indexOf :: "Letter list \<Rightarrow> Letter \<Rightarrow> nat" where
  "indexOf [] y = 0"
| "indexOf (x # xs) y = (if x = y then 0 else Suc (indexOf xs y))"

text \<open>Modelled from the spec: \<open>Permutation.applyInverse\<close> (section 4.1), which is
  missing from the sources.\<close>

definition applyInverse :: "Permutation \<Rightarrow> Letter \<Rightarrow> Letter" where
  "applyInverse p y = indexOf p y"

subsection \<open>Rotor\<close>

text \<open>Modelled from the spec: the RotorSpec of the data model (section 3), which is
  missing from the sources: a name, a wiring and the notch letters.\<close>

record RotorSpec =
  specName :: string
  wiring :: Permutation
  notch :: "Letter list"

text \<open>Modelled from the spec: the RotorState of the data model (section 3), which is
  missing from the sources: the RotorSpec, the current position (offset) and the ring
  setting.\<close>

record RotorState =
  spec :: RotorSpec
  offset :: Letter
  ringSetting :: Letter

text \<open>Modelled from the spec: \<open>Rotor.forward\<close> (section 4.2), which is missing from
  the sources. The shifts are computed over the integers, where \<open>mod\<close> is never
  negative.\<close>

definition forward :: "RotorSpec \<Rightarrow> Letter \<Rightarrow> nat \<Rightarrow> nat \<Rightarrow> Letter" where
  "forward r x pos rng =
     (let inner = nat ((int x + int pos - int rng) mod 26);
          mapped = applyPerm (wiring r) inner
      in nat ((int mapped - int pos + int rng) mod 26))"

text \<open>Modelled from the spec: \<open>Rotor.backward\<close> (section 4.2), which is missing from
  the sources: the shift arithmetic of \<open>forward\<close> around the inverse wiring.\<close>

definition backward :: "RotorSpec \<Rightarrow> Letter \<Rightarrow> nat \<Rightarrow> nat \<Rightarrow> Letter" where
  "backward r x pos rng =
     (let inner = nat ((int x + int pos - int rng) mod 26);
          mapped = applyInverse (wiring r) inner
      in nat ((int mapped - int pos + int rng) mod 26))"

text \<open>Modelled from the spec: \<open>Rotor.isAtNotch\<close> (section 4.2), which is missing from
  the sources.\<close>

definition isAtNotch :: "RotorSpec \<Rightarrow> nat \<Rightarrow> bool" where
  "isAtNotch r pos = (pos \<in> set (notch r))"

text \<open>Modelled from the spec: \<open>Rotor.step\<close> (section 4.2), which is missing from the
  sources.\<close>

definition step :: "nat \<Rightarrow> nat" where
  "step pos = (pos + 1) mod 26"

subsection \<open>Plugboard\<close>

text \<open>Modelled from the spec: the delimiters of the plugboard string (section 6,
  "whitespace- or comma-delimited"), which are missing from the sources: tab, line feed,
  vertical tab, form feed, carriage return, space and comma.\<close>

definition isSeparator :: "char \<Rightarrow> bool" where
  "isSeparator c = ((of_char c :: nat) \<in> {9, 10, 11, 12, 13, 32, 44})"

text \<open>Modelled from the spec: cutting the plugboard string into its tokens (section 6),
  which is missing from the sources; \<open>cur\<close> is the token being read.\<close>

fun splitTokens :: "string \<Rightarrow> string \<Rightarrow> string list" where
  "splitTokens cur [] = (if cur = [] then [] else [cur])"
| "splitTokens cur (c # cs) =
     (if isSeparator c then
        (if cur = [] then splitTokens [] cs else cur # splitTokens [] cs)
      else splitTokens (cur @ [c]) cs)"

text \<open>Modelled from the spec: the check of one plugboard token (section 4.3), which is
  missing from the sources: exactly two distinct letters A-Z.\<close>

definition parseToken :: "string \<Rightarrow> error + (Letter \<times> Letter)" where
  "parseToken tok =
     (case tok of
        [a, b] \<Rightarrow>
          if isUpper a \<and> isUpper b \<and> a \<noteq> b
          then Inr (letterOfChar a, letterOfChar b)
          else Inl InvalidPlugboard
      | _ \<Rightarrow> Inl InvalidPlugboard)"

text \<open>Modelled from the spec: the check of all plugboard tokens (section 4.3), which is
  missing from the sources; the first malformed token fails the whole parse.\<close>

fun parseTokens :: "string list \<Rightarrow> error + (Letter \<times> Letter) list" where
  "parseTokens [] = Inr []"
| "parseTokens (tok # toks) =
     (case parseToken tok of
        Inl e \<Rightarrow> Inl e
      | Inr pr \<Rightarrow>
          (case parseTokens toks of
             Inl e \<Rightarrow> Inl e
           | Inr prs \<Rightarrow> Inr (pr # prs)))"

text \<open>Modelled from the spec: the letters used by a list of plugboard pairs (section
  4.3, "a letter appears twice"), which is missing from the sources.\<close>

definition pairLetters :: "(Letter \<times> Letter) list \<Rightarrow> Letter list" where
  "pairLetters prs = concat (map (\<lambda>(a, b). [a, b]) prs)"

text \<open>Modelled from the spec: the validation of the plugboard string (section 4.3),
  which is missing from the sources: well-formed tokens, no letter in two pairs, at most
  13 pairs.\<close>

definition parsePlugboard :: "string \<Rightarrow> error + (Letter \<times> Letter) list" where
  "parsePlugboard s =
     (case parseTokens (splitTokens [] s) of
        Inl e \<Rightarrow> Inl e
      | Inr prs \<Rightarrow>
          if \<not> distinct (pairLetters prs) then Inl InvalidPlugboard
          else if 13 < length prs then Inl InvalidPlugboard
          else Inr prs)"

text \<open>Modelled from the spec: wiring one pair into a plugboard (section 3, "built from
  letter-pair swaps"), which is missing from the sources.\<close>

definition connect :: "Permutation \<Rightarrow> Letter \<times> Letter \<Rightarrow> Permutation" where
  "connect p pr = (case pr of (a, b) \<Rightarrow> p[a := b, b := a])"

text \<open>Modelled from the spec: the Plugboard of the data model (section 3), which is
  missing from the sources: the pairs swapped, every other letter mapped to itself.\<close>

definition mkPlugboard :: "(Letter \<times> Letter) list \<Rightarrow> Permutation" where
  "mkPlugboard prs = foldl connect [0..<26] prs"

text \<open>Modelled from the spec: \<open>Plugboard.swap\<close> (section 4.3), which is missing from
  the sources.\<close>

definition swap :: "Permutation \<Rightarrow> Letter \<Rightarrow> Letter" where
  "swap p x = p ! x"

subsection \<open>Reflector and the static catalog\<close>

text \<open>Modelled from the spec: \<open>Reflector.reflect\<close> (section 4.4), which is missing from
  the sources.\<close>

definition reflect :: "Permutation \<Rightarrow> Letter \<Rightarrow> Letter" where
  "reflect p x = p ! x"

text \<open>Modelled from the spec: the static catalog of RotorSpecs and Reflectors (sections
  3 and 4.4), which is missing from the sources. It is a parameter of the engine.\<close>

record Catalog =
  rotorCatalog :: "RotorSpec list"
  reflectorCatalog :: "(string \<times> Permutation) list"

text \<open>Modelled from the spec: resolving a rotor name against the catalog (section 4.8),
  which is missing from the sources.\<close>

definition lookupRotor :: "Catalog \<Rightarrow> string \<Rightarrow> RotorSpec option" where
  "lookupRotor cat n = find (\<lambda>r. specName r = n) (rotorCatalog cat)"

text \<open>Modelled from the spec: selecting a reflector by identifier (section 4.4), which
  is missing from the sources.\<close>

definition lookupReflector :: "Catalog \<Rightarrow> string \<Rightarrow> Permutation option" where
  "lookupReflector cat n = map_of (reflectorCatalog cat) n"

text \<open>Modelled from the spec: the invariant of a rotor of the catalog (section 3), which
  is missing from the sources: the wiring is a bijection and the notches are Letters.\<close>

definition wfRotorSpec :: "RotorSpec \<Rightarrow> bool" where
  "wfRotorSpec r = (isBijection (wiring r) \<and> list_all (\<lambda>n. n < 26) (notch r))"

text \<open>Modelled from the spec: the invariant of a reflector of the catalog (section 3),
  which is missing from the sources: an involutive bijection without fixed point.\<close>

definition wfReflector :: "Permutation \<Rightarrow> bool" where
  "wfReflector p =
     (isBijection p \<and> list_all (\<lambda>x. p ! (p ! x) = x \<and> p ! x \<noteq> x) [0..<26])"

text \<open>Modelled from the spec: the invariants of the whole catalog (section 3), which is
  missing from the sources.\<close>

definition wfCatalog :: "Catalog \<Rightarrow> bool" where
  "wfCatalog cat =
     (list_all wfRotorSpec (rotorCatalog cat)
      \<and> list_all (\<lambda>e. wfReflector (snd e)) (reflectorCatalog cat))"

text \<open>Modelled from the spec: reading a wiring table written as 26 letters, for the
  built-in catalog, which is missing from the sources.\<close>

definition lettersOf :: "string \<Rightarrow> Letter list" where
  "lettersOf s = map letterOfChar s"

text \<open>Modelled from the spec: rotor "I" of the built-in catalog, which is missing from
  the sources. The spec names the entry and calls it static historical data; the table is
  the published wiring and notch of the Enigma I.\<close>

definition rotorI :: RotorSpec where
  "rotorI = \<lparr>specName = ''I'', wiring = lettersOf ''EKMFLGDQVZNTOWYHXUSPAIBRCJ'',
              notch = lettersOf ''Q''\<rparr>"

text \<open>Modelled from the spec: rotor "II" of the built-in catalog, which is missing from
  the sources; the published wiring and notch.\<close>

definition rotorII :: RotorSpec where
  "rotorII = \<lparr>specName = ''II'', wiring = lettersOf ''AJDKSIRUXBLHWTMCQGZNPYFVOE'',
               notch = lettersOf ''E''\<rparr>"

text \<open>Modelled from the spec: rotor "III" of the built-in catalog, which is missing from
  the sources; the published wiring and notch.\<close>

definition rotorIII :: RotorSpec where
  "rotorIII = \<lparr>specName = ''III'', wiring = lettersOf ''BDFHJLCPRTXVZNYEIWGAKMUSQO'',
                notch = lettersOf ''V''\<rparr>"

text \<open>Modelled from the spec: reflector "A" of the built-in catalog, which is missing
  from the sources; the published wiring.\<close>

definition reflectorA :: Permutation where
  "reflectorA = lettersOf ''EJMZALYXVBWFCRQUONTSPIKHGD''"

text \<open>Modelled from the spec: reflector "B" of the built-in catalog, which is missing
  from the sources; the published wiring.\<close>

definition reflectorB :: Permutation where
  "reflectorB = lettersOf ''YRUHQSLDPXNGOKMIEBFZCWVJAT''"

text \<open>Modelled from the spec: reflector "C" of the built-in catalog, which is missing
  from the sources; the published wiring.\<close>

definition reflectorC :: Permutation where
  "reflectorC = lettersOf ''FVPJIAOYEDRZXWGCTKUQSBNMHL''"

text \<open>Modelled from the spec: the built-in catalog (sections 3 and 4.4), which is
  missing from the sources: rotors "I", "II", "III" and reflectors "A", "B", "C".\<close>

definition historicalCatalog :: Catalog where
  "historicalCatalog =
     \<lparr>rotorCatalog = [rotorI, rotorII, rotorIII],
      reflectorCatalog = [(''A'', reflectorA), (''B'', reflectorB), (''C'', reflectorC)]\<rparr>"

subsection \<open>ConfigValidator\<close>

text \<open>Modelled from the spec: one validated rotor initializer of a MachineConfig
  (section 3), which is missing from the sources: name, starting position, ring.\<close>

record RotorSetting =
  rotorName :: string
  startPosition :: Letter
  ringLetter :: Letter

text \<open>Modelled from the spec: the MachineConfig of the data model (section 3), which is
  missing from the sources: three rotor initializers, a reflector identifier and a
  plugboard pairing string.\<close>

record MachineConfig =
  cfgRotors :: "RotorSetting \<times> RotorSetting \<times> RotorSetting"
  cfgReflector :: string
  cfgPlugboard :: string

text \<open>Modelled from the spec: the check of a position or ring letter (section 4.8),
  which is missing from the sources: a single letter A-Z, or \<open>InvalidSetting\<close>.\<close>

definition parseSetting :: "string \<Rightarrow> error + Letter" where
  "parseSetting s =
     (case s of
        [c] \<Rightarrow> if isUpper c then Inr (letterOfChar c) else Inl InvalidSetting
      | _ \<Rightarrow> Inl InvalidSetting)"

text \<open>Modelled from the spec: the validation of one rotor entry (section 4.8), which is
  missing from the sources: the name must resolve, position and ring must be letters.\<close>

definition validateRotor :: "Catalog \<Rightarrow> RotorInit \<Rightarrow> error + RotorSetting" where
  "validateRotor cat r =
     (case lookupRotor cat (name r) of
        None \<Rightarrow> Inl UnknownRotor
      | Some _ \<Rightarrow>
          (case parseSetting (position r) of
             Inl e \<Rightarrow> Inl e
           | Inr p \<Rightarrow>
               (case parseSetting (ring r) of
                  Inl e \<Rightarrow> Inl e
                | Inr g \<Rightarrow>
                    Inr \<lparr>rotorName = name r, startPosition = p, ringLetter = g\<rparr>)))"

text \<open>Modelled from the spec: the ConfigValidator (section 4.8), which is missing from
  the sources. The spec fixes the checks and their errors, not the order in which they
  are made; here the rotors are checked first (name, then position, then ring), then
  their distinctness, then the reflector, then the plugboard.\<close>

definition validate :: "Catalog \<Rightarrow> RawConfig \<Rightarrow> error + MachineConfig" where
  "validate cat raw =
     (case rotors raw of (a, b, c) \<Rightarrow>
        (case validateRotor cat a of Inl e \<Rightarrow> Inl e | Inr ra \<Rightarrow>
        (case validateRotor cat b of Inl e \<Rightarrow> Inl e | Inr rb \<Rightarrow>
        (case validateRotor cat c of Inl e \<Rightarrow> Inl e | Inr rc \<Rightarrow>
           if name a = name b \<or> name a = name c \<or> name b = name c
           then Inl DuplicateRotor
           else
             (case lookupReflector cat (reflector raw) of
                None \<Rightarrow> Inl UnknownReflector
              | Some _ \<Rightarrow>
                  (case parsePlugboard (plugboard_pairs raw) of
                     Inl e \<Rightarrow> Inl e
                   | Inr _ \<Rightarrow>
                       Inr \<lparr>cfgRotors = (ra, rb, rc),
                            cfgReflector = reflector raw,
                            cfgPlugboard = plugboard_pairs raw\<rparr>))))))"

subsection \<open>Machine\<close>

text \<open>Modelled from the spec: the Machine of the data model (section 3), which is
  missing from the sources: three rotor states of its own, a reflector and a plugboard.\<close>

record Machine =
  left :: RotorState
  middle :: RotorState
  right :: RotorState
  machineReflector :: Permutation
  machinePlugboard :: Permutation

text \<open>Modelled from the spec: deriving a RotorState from its initializer (section 3),
  which is missing from the sources.\<close>

definition mkRotorState :: "RotorSpec \<Rightarrow> RotorSetting \<Rightarrow> RotorState" where
  "mkRotorState r st = \<lparr>spec = r, offset = startPosition st, ringSetting = ringLetter st\<rparr>"

text \<open>Modelled from the spec: Machine construction from a MachineConfig (section 3),
  which is missing from the sources. The three rotor entries of a configuration are, in
  order, the left, the middle and the right rotor.\<close>

definition buildMachine :: "Catalog \<Rightarrow> MachineConfig \<Rightarrow> error + Machine" where
  "buildMachine cat cfg =
     (case cfgRotors cfg of (a, b, c) \<Rightarrow>
        (case lookupRotor cat (rotorName a) of None \<Rightarrow> Inl UnknownRotor | Some sa \<Rightarrow>
        (case lookupRotor cat (rotorName b) of None \<Rightarrow> Inl UnknownRotor | Some sb \<Rightarrow>
        (case lookupRotor cat (rotorName c) of None \<Rightarrow> Inl UnknownRotor | Some sc \<Rightarrow>
        (case lookupReflector cat (cfgReflector cfg) of
           None \<Rightarrow> Inl UnknownReflector
         | Some rf \<Rightarrow>
             (case parsePlugboard (cfgPlugboard cfg) of
                Inl e \<Rightarrow> Inl e
              | Inr prs \<Rightarrow>
                  Inr \<lparr>left = mkRotorState sa a,
                       middle = mkRotorState sb b,
                       right = mkRotorState sc c,
                       machineReflector = rf,
                       machinePlugboard = mkPlugboard prs\<rparr>))))))"

text \<open>Modelled from the spec: stepping one rotor of a Machine (sections 4.2 and 4.5),
  which is missing from the sources.\<close>

definition stepRotor :: "RotorState \<Rightarrow> RotorState" where
  "stepRotor r = r\<lparr>offset := step (offset r)\<rparr>"

text \<open>Modelled from the spec: the notch test on a rotor of a Machine (sections 4.2 and
  4.5), which is missing from the sources.\<close>

definition rotorAtNotch :: "RotorState \<Rightarrow> bool" where
  "rotorAtNotch r = isAtNotch (spec r) (offset r)"

text \<open>Modelled from the spec: the stepping transition of the Machine (section 4.5),
  which is missing from the sources. Both notch tests read the positions before any
  step; then the three rules are applied in their order.\<close>

definition stepRotors :: "Machine \<Rightarrow> Machine" where
  "stepRotors m =
     (let middleAtNotch = rotorAtNotch (middle m);
          rightAtNotch = rotorAtNotch (right m);
          m1 = (if middleAtNotch then
                  m\<lparr>middle := stepRotor (middle m), left := stepRotor (left m)\<rparr>
                else if rightAtNotch then
                  m\<lparr>middle := stepRotor (middle m)\<rparr>
                else m)
      in m1\<lparr>right := stepRotor (right m1)\<rparr>)"

text \<open>Modelled from the spec: the forward transform of a rotor at its current position
  and ring (section 4.6, step 3), which is missing from the sources.\<close>

definition rotorForward :: "RotorState \<Rightarrow> Letter \<Rightarrow> Letter" where
  "rotorForward r x = forward (spec r) x (offset r) (ringSetting r)"

text \<open>Modelled from the spec: the backward transform of a rotor at its current position
  and ring (section 4.6, step 5), which is missing from the sources.\<close>

definition rotorBackward :: "RotorState \<Rightarrow> Letter \<Rightarrow> Letter" where
  "rotorBackward r x = backward (spec r) x (offset r) (ringSetting r)"

text \<open>Modelled from the spec: steps 2 to 6 of \<open>encryptLetter\<close> (section 4.6), which is
  missing from the sources: the signal path of one letter through a Machine whose rotors
  have stepped.\<close>

definition signalPath :: "Machine \<Rightarrow> Letter \<Rightarrow> Letter" where
  "signalPath m x0 =
     (let x1 = swap (machinePlugboard m) x0;
          x2 = rotorForward (right m) x1;
          x3 = rotorForward (middle m) x2;
          x4 = rotorForward (left m) x3;
          x5 = reflect (machineReflector m) x4;
          x6 = rotorBackward (left m) x5;
          x7 = rotorBackward (middle m) x6;
          x8 = rotorBackward (right m) x7
      in swap (machinePlugboard m) x8)"

text \<open>Modelled from the spec: \<open>Machine.encryptLetter\<close> (section 4.6), which is missing
  from the sources: the stepping transition, then the signal path. The Machine it has
  stepped is returned with the letter.\<close>

definition encryptLetter :: "Machine \<Rightarrow> Letter \<Rightarrow> Letter \<times> Machine" where
  "encryptLetter m x = (let m' = stepRotors m in (signalPath m' x, m'))"

text \<open>Modelled from the spec: \<open>Machine.encryptString\<close> (section 4.7), which is missing
  from the sources: a letter, in either case, goes through \<open>encryptLetter\<close> in upper
  case; any other character is emitted as it is and moves no rotor.\<close>

fun encryptString :: "Machine \<Rightarrow> string \<Rightarrow> string \<times> Machine" where
  "encryptString m [] = ([], m)"
| "encryptString m (c # cs) =
     (if isUpper (upperChar c) then
        (case encryptLetter m (letterOfChar (upperChar c)) of (y, m') \<Rightarrow>
           (case encryptString m' cs of (rest, m'') \<Rightarrow> (charOfLetter y # rest, m'')))
      else
        (case encryptString m cs of (rest, m'') \<Rightarrow> (c # rest, m'')))"

text \<open>Modelled from the spec: \<open>encryptString(C, T)\<close>, the call on a validated
  configuration (sections 5 and 8), which is missing from the sources: a fresh Machine
  is built from the configuration for each call and dropped on return.\<close>

definition encryptStringFrom :: "Catalog \<Rightarrow> MachineConfig \<Rightarrow> string \<Rightarrow> error + string" where
  "encryptStringFrom cat cfg text =
     (case buildMachine cat cfg of
        Inl e \<Rightarrow> Inl e
      | Inr m \<Rightarrow> Inr (fst (encryptString m text)))"

text \<open>Modelled from the spec: the function boundary of the engine (section 6), which is
  missing from the sources: from (config, text) to the ciphertext or an error, the
  configuration being validated before any character is processed.\<close>

definition enigma_process_string :: "Catalog \<Rightarrow> RawConfig \<Rightarrow> string \<Rightarrow> error + string" where
  "enigma_process_string cat raw text =
     (case validate cat raw of
        Inl e \<Rightarrow> Inl e
      | Inr cfg \<Rightarrow> encryptStringFrom cat cfg text)"

subsection \<open>Auxiliary notions and fixtures\<close>

text \<open>Shifting a Letter by an integer amount, modulo 26: the arithmetic shared by the
  two rotor transforms.\<close>

definition shiftBy :: "int \<Rightarrow> nat \<Rightarrow> nat" where
  "shiftBy d a = nat ((int a + d) mod 26)"

text \<open>A table of 26 Letters that is its own inverse.\<close>

definition involOn :: "Permutation \<Rightarrow> bool" where
  "involOn p =
     (length p = 26 \<and> list_all (\<lambda>x. p ! x < 26 \<and> p ! (p ! x) = x) [0..<26])"

text \<open>The invariant of a Machine built from a well-formed catalog.\<close>

definition wfMachine :: "Machine \<Rightarrow> bool" where
  "wfMachine m =
     (isBijection (wiring (spec (left m)))
      \<and> isBijection (wiring (spec (middle m)))
      \<and> isBijection (wiring (spec (right m)))
      \<and> involOn (machineReflector m)
      \<and> involOn (machinePlugboard m))"

text \<open>The MachineConfig that validation makes of \<open>getDefaultConfig\<close>.\<close>

definition defaultMachineConfig :: MachineConfig where
  "defaultMachineConfig =
     \<lparr>cfgRotors = (\<lparr>rotorName = ''I'', startPosition = 0, ringLetter = 0\<rparr>,
                   \<lparr>rotorName = ''II'', startPosition = 0, ringLetter = 0\<rparr>,
                   \<lparr>rotorName = ''III'', startPosition = 0, ringLetter = 0\<rparr>),
      cfgReflector = ''B'',
      cfgPlugboard = []\<rparr>"

text \<open>The Machine with rotors I, II, III at the given positions, ring setting A,
  reflector B and no plug.\<close>

definition machineAt :: "Letter \<Rightarrow> Letter \<Rightarrow> Letter \<Rightarrow> Machine" where
  "machineAt l m r =
     \<lparr>left = \<lparr>spec = rotorI, offset = l, ringSetting = 0\<rparr>,
      middle = \<lparr>spec = rotorII, offset = m, ringSetting = 0\<rparr>,
      right = \<lparr>spec = rotorIII, offset = r, ringSetting = 0\<rparr>,
      machineReflector = reflectorB,
      machinePlugboard = [0..<26]\<rparr>"

section \<open>Properties of the presentation layer\<close>

lemma isLetterKey_not_space: "isLetterKey key \<Longrightarrow> key \<noteq> '' ''"
  by (auto simp: isLetterKey_def isUpper_def isLower_def)

lemma handleEvent_invocations:
  "set (invocations (handleEvent invoke e s)) \<subseteq> set (invocations s) \<union> {getDefaultConfig} \<times> UNIV"
  by (cases e)
     (auto simp: onKeyPress_def handlePhysicalKeyPress_def handleKeyPress_def
        processEncryption_def handleClear_def Let_def split: sum.splits)

lemma runEvents_invocations:
  "set (invocations (runEvents invoke es s)) \<subseteq> set (invocations s) \<union> {getDefaultConfig} \<times> UNIV"
proof (induction es arbitrary: s)
  case Nil
  show ?case by simp
next
  case (Cons e es)
  show ?case
    using Cons.IH [of "handleEvent invoke e s"] handleEvent_invocations [of invoke e s]
    by auto
qed

lemma run_example:
  "invocations (runEvents (\<lambda>c t. (Inr t :: unit + string))
      [PhysicalKey ''a'', VirtualKey '' '', PhysicalKey ''Shift'', Clear, VirtualKey ''Q'']
      initialState)
   = [(getDefaultConfig, ''A''), (getDefaultConfig, ''Q'')]"
  by code_simp

text \<open>
  Claim C1, as stated, says that every keystroke leads to an engine invocation. The space
  key does not: \<open>handleKeyPress\<close> appends the space to both texts and returns before
  any call is made.
\<close>

theorem handleKeyPress_space_no_invocation:
  "invocations (handleKeyPress (\<lambda>c t. (Inr t :: unit + string)) '' '' initialState) = []
   \<and> encryptedText (handleKeyPress (\<lambda>c t. (Inr t :: unit + string)) '' '' initialState)
       = '' ''"
  by (simp add: handleKeyPress_def initialState_def)

text \<open>
  Claim C1, amended: on every letter keystroke the accumulated plaintext grows by the
  lower-cased key, the engine is invoked exactly once, with the whole accumulated
  plaintext in upper case and the default configuration, and when that invocation
  succeeds the returned ciphertext is what is displayed. A space keystroke makes no
  invocation and appends the space to both texts.
\<close>

theorem handleKeyPress_letter_invokes:
  "isLetterKey key \<Longrightarrow>
   originalText (handleKeyPress invoke key s) = originalText s @ toLowerCase key
   \<and> invocations (handleKeyPress invoke key s)
       = invocations s @ [(getDefaultConfig, toUpperCase (originalText s @ toLowerCase key))]
   \<and> (\<forall>c. invoke getDefaultConfig (toUpperCase (originalText s @ toLowerCase key)) = Inr c
          \<longrightarrow> encryptedText (handleKeyPress invoke key s) = c)
   \<and> handleKeyPress invoke '' '' s
       = s\<lparr>originalText := originalText s @ '' '',
           encryptedText := encryptedText s @ '' ''\<rparr>"
  using isLetterKey_not_space [of key]
  by (auto simp: handleKeyPress_def processEncryption_def Let_def split: sum.splits)

theorem handleKeyPress_letter_invokes_witness:
  "isLetterKey ''b''
   \<and> originalText (handleKeyPress (\<lambda>c t. (Inr (rev t) :: unit + string)) ''b''
        \<lparr>originalText = ''a '', encryptedText = ''X '', invocations = []\<rparr>) = ''a b''
   \<and> invocations (handleKeyPress (\<lambda>c t. (Inr (rev t) :: unit + string)) ''b''
        \<lparr>originalText = ''a '', encryptedText = ''X '', invocations = []\<rparr>)
       = [(getDefaultConfig, ''A B'')]
   \<and> encryptedText (handleKeyPress (\<lambda>c t. (Inr (rev t) :: unit + string)) ''b''
        \<lparr>originalText = ''a '', encryptedText = ''X '', invocations = []\<rparr>) = ''B A''"
proof -
  have k: "isLetterKey ''b''"
    by code_simp
  have low: "toLowerCase ''b'' = ''b''"
    by code_simp
  have up: "toUpperCase ''a b'' = ''A B''"
    by code_simp
  show ?thesis
    using k handleKeyPress_letter_invokes [OF k, of "\<lambda>c t. (Inr (rev t) :: unit + string)"
        "\<lparr>originalText = ''a '', encryptedText = ''X '', invocations = []\<rparr>"]
    by (simp add: low up)
qed

text \<open>
  Claim C7: whatever sequence of key presses (on-screen or physical) and clears the
  component handles, starting from its initial state, every engine invocation it makes
  carries the configuration of \<open>getDefaultConfig\<close>: rotors I, II, III, each at
  position "A" with ring "A", reflector "B" and the empty plugboard string. No event
  changes the configuration.
\<close>

theorem every_invocation_default_config:
  "(cfg, text) \<in> set (invocations (runEvents invoke es initialState)) \<Longrightarrow>
   cfg = getDefaultConfig
   \<and> rotors cfg = (\<lparr>name = ''I'', position = ''A'', ring = ''A''\<rparr>,
                    \<lparr>name = ''II'', position = ''A'', ring = ''A''\<rparr>,
                    \<lparr>name = ''III'', position = ''A'', ring = ''A''\<rparr>)
   \<and> reflector cfg = ''B''
   \<and> plugboard_pairs cfg = []"
  using runEvents_invocations [of invoke es initialState]
  by (auto simp: initialState_def getDefaultConfig_def)

theorem every_invocation_default_config_witness:
  "(getDefaultConfig, ''Q'') \<in> set (invocations (runEvents (\<lambda>c t. (Inr t :: unit + string))
      [PhysicalKey ''a'', VirtualKey '' '', PhysicalKey ''Shift'', Clear, VirtualKey ''Q'']
      initialState))
   \<and> ring (fst (rotors getDefaultConfig)) = ''A''
   \<and> ring (fst (snd (rotors getDefaultConfig))) = ''A''
   \<and> ring (snd (snd (rotors getDefaultConfig))) = ''A''
   \<and> reflector getDefaultConfig = ''B''
   \<and> plugboard_pairs getDefaultConfig = []"
proof -
  have m: "(getDefaultConfig, ''Q'') \<in> set (invocations
      (runEvents (\<lambda>c t. (Inr t :: unit + string))
        [PhysicalKey ''a'', VirtualKey '' '', PhysicalKey ''Shift'', Clear, VirtualKey ''Q'']
        initialState))"
    by (simp only: run_example) simp
  show ?thesis
    using m every_invocation_default_config [OF m] by (simp add: getDefaultConfig_def)
qed

text \<open>
  Claim C8: a failed engine invocation is the rejection branch of the call, never a
  returned ciphertext, and \<open>processEncryption\<close> then appends exactly one "?" to the
  ciphertext displayed before, leaving the rest of it and the plaintext as they were.
\<close>

theorem failed_invocation_appends_placeholder:
  "invoke getDefaultConfig (toUpperCase text) = Inl err \<Longrightarrow>
   invoke getDefaultConfig (toUpperCase text) \<noteq> Inr c
   \<and> encryptedText (processEncryption invoke text s) = encryptedText s @ ''?''
   \<and> originalText (processEncryption invoke text s) = originalText s"
  by (simp add: processEncryption_def Let_def)

theorem failed_invocation_appends_placeholder_witness:
  "(\<lambda>c t. (Inl ''rejected'' :: string + string)) getDefaultConfig (toUpperCase ''ab'')
     = Inl ''rejected''
   \<and> encryptedText (processEncryption (\<lambda>c t. (Inl ''rejected'' :: string + string)) ''ab''
        \<lparr>originalText = ''ab'', encryptedText = ''X'', invocations = []\<rparr>) = ''X?''"
  using failed_invocation_appends_placeholder
    [of "\<lambda>c t. (Inl ''rejected'' :: string + string)" "''ab''" "''rejected''" "''Y''"
        "\<lparr>originalText = ''ab'', encryptedText = ''X'', invocations = []\<rparr>"]
  by simp

text \<open>
  Claim C9: a key that is neither a single ASCII letter nor the space leaves the whole
  component state as it was (plaintext, ciphertext and the trace of engine invocations),
  whether it comes from the on-screen keyboard or from a physical key press.
\<close>

theorem other_keys_ignored:
  "\<not> isLetterKey key \<Longrightarrow> key \<noteq> '' '' \<Longrightarrow>
   onKeyPress invoke key s = s \<and> handlePhysicalKeyPress invoke key s = s"
  by (simp add: onKeyPress_def handlePhysicalKeyPress_def handleKeyPress_def)

theorem other_keys_ignored_witness:
  "\<not> isLetterKey ''Enter'' \<and> ''Enter'' \<noteq> '' ''
   \<and> onKeyPress (\<lambda>c t. (Inr t :: unit + string)) ''Enter''
        \<lparr>originalText = ''ab'', encryptedText = ''XY'', invocations = []\<rparr>
      = \<lparr>originalText = ''ab'', encryptedText = ''XY'', invocations = []\<rparr>
   \<and> handlePhysicalKeyPress (\<lambda>c t. (Inr t :: unit + string)) ''Enter''
        \<lparr>originalText = ''ab'', encryptedText = ''XY'', invocations = []\<rparr>
      = \<lparr>originalText = ''ab'', encryptedText = ''XY'', invocations = []\<rparr>"
proof -
  have k: "\<not> isLetterKey ''Enter''" by code_simp
  have n: "''Enter'' \<noteq> '' ''" by simp
  show ?thesis
    using k n other_keys_ignored [OF k n, of "\<lambda>c t. (Inr t :: unit + string)"
        "\<lparr>originalText = ''ab'', encryptedText = ''XY'', invocations = []\<rparr>"]
    by simp
qed

text \<open>
  Claim C10: when the engine invocation succeeds, the displayed ciphertext becomes
  exactly the returned string, whatever was displayed before; in particular after a
  letter keystroke, where the invocation is made on the full accumulated text. Nothing
  of the earlier display, "?" placeholders included, survives.
\<close>

theorem successful_invocation_replaces_display:
  "invoke getDefaultConfig (toUpperCase text) = Inr c \<Longrightarrow>
   encryptedText (processEncryption invoke text s) = c
   \<and> (isLetterKey key \<and> text = originalText s @ toLowerCase key
        \<longrightarrow> encryptedText (handleKeyPress invoke key s) = c)"
  using isLetterKey_not_space [of key]
  by (auto simp: handleKeyPress_def processEncryption_def Let_def)

theorem successful_invocation_replaces_display_witness:
  "encryptedText (handleKeyPress
       (\<lambda>c t. if t = ''A'' then (Inl () :: unit + string) else Inr (rev t)) ''a''
       initialState) = ''?''
   \<and> encryptedText (handleKeyPress
       (\<lambda>c t. if t = ''A'' then (Inl () :: unit + string) else Inr (rev t)) ''b''
       (handleKeyPress
          (\<lambda>c t. if t = ''A'' then (Inl () :: unit + string) else Inr (rev t)) ''a''
          initialState)) = ''BA''"
proof -
  let ?eng = "\<lambda>(c :: RawConfig) t. if t = ''A'' then (Inl () :: unit + string) else Inr (rev t)"
  let ?s = "handleKeyPress ?eng ''a'' initialState"
  have s: "?s = \<lparr>originalText = ''a'', encryptedText = ''?'',
                 invocations = [(getDefaultConfig, ''A'')]\<rparr>"
    by code_simp
  have up: "toUpperCase ''ab'' = ''AB''" by code_simp
  have ok: "?eng getDefaultConfig (toUpperCase ''ab'') = Inr ''BA''"
    by (simp add: up)
  have k: "isLetterKey ''b''" by code_simp
  have t: "''ab'' = originalText ?s @ toLowerCase ''b''"
    unfolding s by code_simp
  show ?thesis
    using successful_invocation_replaces_display [of ?eng "''ab''" "''BA''" ?s "''b''"] ok k t s
    by simp
qed

section \<open>Properties of the cipher engine\<close>

subsection \<open>Permutations\<close>

lemma indexOf_nth: "distinct xs \<Longrightarrow> i < length xs \<Longrightarrow> indexOf xs (xs ! i) = i"
proof (induction xs arbitrary: i)
  case Nil
  then show ?case by simp
next
  case (Cons x xs)
  show ?case
  proof (cases i)
    case 0
    then show ?thesis by simp
  next
    case (Suc j)
    with Cons.prems have "xs ! j \<in> set xs" "x \<notin> set xs" by auto
    then have "x \<noteq> xs ! j" by auto
    with Suc Cons show ?thesis by simp
  qed
qed

lemma indexOf_less: "y \<in> set xs \<Longrightarrow> indexOf xs y < length xs"
  by (induction xs) auto

lemma nth_indexOf: "y \<in> set xs \<Longrightarrow> xs ! indexOf xs y = y"
  by (induction xs) auto

lemma isBijection_set: 
  assumes "isBijection p"
  shows "set p = {0..<26}"
proof -
  from assms have len: "length p = 26" and d: "distinct p" and b: "\<forall>y\<in>set p. y < 26"
    by (auto simp: isBijection_def list_all_iff)
  from b have sub: "set p \<subseteq> {0..<26}" by auto
  from d len have "card (set p) = 26" by (simp add: distinct_card)
  then have "card (set p) = card {0..<26::nat}" by simp
  with sub show ?thesis by (simp add: card_subset_eq)
qed

lemma applyPerm_less: "isBijection p \<Longrightarrow> x < 26 \<Longrightarrow> applyPerm p x < 26"
  using isBijection_set [of p] nth_mem [of x p]
  by (auto simp: applyPerm_def isBijection_def)

lemma applyInverse_less: "isBijection p \<Longrightarrow> y < 26 \<Longrightarrow> applyInverse p y < 26"
  using isBijection_set [of p] indexOf_less [of y p]
  by (auto simp: applyInverse_def isBijection_def)

lemma applyInverse_applyPerm:
  "isBijection p \<Longrightarrow> x < 26 \<Longrightarrow> applyInverse p (applyPerm p x) = x"
  by (simp add: applyInverse_def applyPerm_def isBijection_def indexOf_nth)

lemma applyPerm_applyInverse:
  "isBijection p \<Longrightarrow> y < 26 \<Longrightarrow> applyPerm p (applyInverse p y) = y"
  using isBijection_set [of p] nth_indexOf [of y p]
  by (auto simp: applyInverse_def applyPerm_def)

subsection \<open>Rotor\<close>

lemma shiftBy_less: "shiftBy d a < 26"
  by (simp add: shiftBy_def nat_less_iff)

lemma shiftBy_inverse: "a < 26 \<Longrightarrow> shiftBy (- d) (shiftBy d a) = a"
proof -
  assume a: "a < 26"
  have "(int a + d) mod 26 - d = ((int a + d) mod 26 + (- d))" by simp
  have "((int a + d) mod 26 + (- d)) mod 26 = (int a + d + (- d)) mod 26"
    by (rule mod_add_left_eq)
  also have "\<dots> = int a" using a by simp
  finally show ?thesis by (simp add: shiftBy_def)
qed

lemma forward_shiftBy:
  assumes "d = int pos - int rng"
  shows "forward r x pos rng = shiftBy (- d) (applyPerm (wiring r) (shiftBy d x))"
  unfolding assms by (simp add: forward_def shiftBy_def Let_def algebra_simps)

lemma backward_shiftBy:
  assumes "d = int pos - int rng"
  shows "backward r x pos rng = shiftBy (- d) (applyInverse (wiring r) (shiftBy d x))"
  unfolding assms by (simp add: backward_def shiftBy_def Let_def algebra_simps)

lemma forward_less: "forward r x pos rng < 26"
  by (simp add: forward_shiftBy [OF refl] shiftBy_less)

lemma backward_less: "backward r x pos rng < 26"
  by (simp add: backward_shiftBy [OF refl] shiftBy_less)

lemma shiftBy_inverse': "a < 26 \<Longrightarrow> shiftBy d (shiftBy (- d) a) = a"
  using shiftBy_inverse [of a "- d"] by simp

lemma backward_forward:
  assumes "isBijection (wiring r)" "x < 26"
  shows "backward r (forward r x pos rng) pos rng = x"
proof -
  define d where "d = int pos - int rng"
  have i: "shiftBy d x < 26" by (rule shiftBy_less)
  have m: "applyPerm (wiring r) (shiftBy d x) < 26"
    using assms(1) i by (rule applyPerm_less)
  have "backward r (forward r x pos rng) pos rng
          = shiftBy (- d) (applyInverse (wiring r)
              (shiftBy d (shiftBy (- d) (applyPerm (wiring r) (shiftBy d x)))))"
    by (simp only: backward_shiftBy [OF d_def] forward_shiftBy [OF d_def])
  also have "\<dots> = shiftBy (- d) (applyInverse (wiring r) (applyPerm (wiring r) (shiftBy d x)))"
    by (simp only: shiftBy_inverse' [OF m])
  also have "\<dots> = shiftBy (- d) (shiftBy d x)"
    by (simp only: applyInverse_applyPerm [OF assms(1) i])
  also have "\<dots> = x"
    by (rule shiftBy_inverse [OF assms(2)])
  finally show ?thesis .
qed

lemma forward_backward:
  assumes "isBijection (wiring r)" "x < 26"
  shows "forward r (backward r x pos rng) pos rng = x"
proof -
  define d where "d = int pos - int rng"
  have i: "shiftBy d x < 26" by (rule shiftBy_less)
  have m: "applyInverse (wiring r) (shiftBy d x) < 26"
    using assms(1) i by (rule applyInverse_less)
  have "forward r (backward r x pos rng) pos rng
          = shiftBy (- d) (applyPerm (wiring r)
              (shiftBy d (shiftBy (- d) (applyInverse (wiring r) (shiftBy d x)))))"
    by (simp only: backward_shiftBy [OF d_def] forward_shiftBy [OF d_def])
  also have "\<dots> = shiftBy (- d) (applyPerm (wiring r) (applyInverse (wiring r) (shiftBy d x)))"
    by (simp only: shiftBy_inverse' [OF m])
  also have "\<dots> = shiftBy (- d) (shiftBy d x)"
    by (simp only: applyPerm_applyInverse [OF assms(1) i])
  also have "\<dots> = x"
    by (rule shiftBy_inverse [OF assms(2)])
  finally show ?thesis .
qed

subsection \<open>Characters\<close>

lemma letterOfChar_less: "isUpper c \<Longrightarrow> letterOfChar c < 26"
  by (auto simp: isUpper_def letterOfChar_def)

lemma charOfLetter_letterOfChar: "isUpper c \<Longrightarrow> charOfLetter (letterOfChar c) = c"
  by (simp add: isUpper_def letterOfChar_def charOfLetter_def)

lemma isUpper_charOfLetter: "y < 26 \<Longrightarrow> isUpper (charOfLetter y)"
  by (simp add: isUpper_def charOfLetter_def)

lemma letterOfChar_charOfLetter: "y < 26 \<Longrightarrow> letterOfChar (charOfLetter y) = y"
  by (simp add: letterOfChar_def charOfLetter_def)

lemma upperChar_upper: "isUpper c \<Longrightarrow> upperChar c = c"
  by (simp add: upperChar_def isUpper_def isLower_def)

lemma isUpper_upperChar: "isUpper (upperChar c) = isLetterChar c"
  by (auto simp: upperChar_def isUpper_def isLower_def isLetterChar_def)

lemma upperChar_idem: "upperChar (upperChar c) = upperChar c"
  by (auto simp: upperChar_def isUpper_def isLower_def)

lemma upperChar_other: "\<not> isLetterChar c \<Longrightarrow> upperChar c = c"
  by (simp add: upperChar_def isLetterChar_def)

subsection \<open>Plugboard\<close>

lemma involOn_iff:
  "involOn p = (length p = 26 \<and> (\<forall>x<26. p ! x < 26 \<and> p ! (p ! x) = x))"
  by (auto simp: involOn_def list_all_iff)

lemma involOn_connect:
  assumes inv: "involOn p" and a: "a < 26" and b: "b < 26" and ab: "a \<noteq> b"
    and fa: "p ! a = a" and fb: "p ! b = b"
  shows "involOn (connect p (a, b))"
proof -
  define q where "q = p[a := b, b := a]"
  from inv have len: "length p = 26" and lt: "\<And>x. x < 26 \<Longrightarrow> p ! x < 26"
    and pp: "\<And>x. x < 26 \<Longrightarrow> p ! (p ! x) = x"
    by (auto simp: involOn_iff)
  have q: "q ! x = (if x = b then a else if x = a then b else p ! x)" if "x < 26" for x
    using len that by (simp add: q_def nth_list_update)
  have "q ! x < 26 \<and> q ! (q ! x) = x" if x: "x < 26" for x
  proof (cases "x = a \<or> x = b")
    case True
    then show ?thesis using a b ab q [OF a] q [OF b] by auto
  next
    case False
    have na: "p ! x \<noteq> a"
    proof
      assume "p ! x = a"
      then have "p ! (p ! x) = a" using fa by simp
      with pp [OF x] False show False by simp
    qed
    have nb: "p ! x \<noteq> b"
    proof
      assume "p ! x = b"
      then have "p ! (p ! x) = b" using fb by simp
      with pp [OF x] False show False by simp
    qed
    show ?thesis
      using False na nb lt [OF x] pp [OF x] q [OF x] q [OF lt [OF x]] by simp
  qed
  moreover have "length q = 26" using len by (simp add: q_def)
  ultimately have "involOn q" by (simp add: involOn_iff)
  then show ?thesis by (simp add: connect_def q_def)
qed

lemma involOn_foldl_connect:
  "involOn p \<Longrightarrow> distinct (pairLetters prs) \<Longrightarrow>
   (\<forall>x\<in>set (pairLetters prs). x < 26 \<and> p ! x = x) \<Longrightarrow>
   involOn (foldl connect p prs)"
proof (induction prs arbitrary: p)
  case Nil
  then show ?case by simp
next
  case (Cons pr prs)
  obtain a b where pr: "pr = (a, b)" by (cases pr)
  from Cons.prems pr have ab: "a \<noteq> b" and a: "a < 26" "p ! a = a" and b: "b < 26" "p ! b = b"
    and d: "distinct (pairLetters prs)"
    and out: "a \<notin> set (pairLetters prs)" "b \<notin> set (pairLetters prs)"
    and rest: "\<forall>x\<in>set (pairLetters prs). x < 26 \<and> p ! x = x"
    by (auto simp: pairLetters_def)
  have inv: "involOn (connect p pr)"
    unfolding pr using Cons.prems(1) a(1) b(1) ab a(2) b(2) by (rule involOn_connect)
  have fixed: "\<forall>x\<in>set (pairLetters prs). x < 26 \<and> connect p pr ! x = x"
  proof
    fix x
    assume x: "x \<in> set (pairLetters prs)"
    with out have "x \<noteq> a" "x \<noteq> b" by auto
    then have "connect p pr ! x = p ! x" by (simp add: pr connect_def)
    with rest x show "x < 26 \<and> connect p pr ! x = x" by simp
  qed
  show ?case
    using Cons.IH [OF inv d fixed] by simp
qed

lemma involOn_identity: "involOn [0..<26]"
  by (simp add: involOn_iff)

lemma parseTokens_less:
  "parseTokens toks = Inr prs \<Longrightarrow> \<forall>x\<in>set (pairLetters prs). x < 26"
proof (induction toks arbitrary: prs)
  case Nil
  then show ?case by (simp add: pairLetters_def)
next
  case (Cons tok toks)
  from Cons.prems obtain pr rest where
    tok: "parseToken tok = Inr pr" and r: "parseTokens toks = Inr rest" and prs: "prs = pr # rest"
    by (auto split: sum.splits)
  from tok have "fst pr < 26 \<and> snd pr < 26"
    by (auto simp: parseToken_def letterOfChar_less split: list.splits if_splits)
  with Cons.IH [OF r] prs show ?case
    by (cases pr) (auto simp: pairLetters_def)
qed

lemma parsePlugboard_involOn:
  assumes "parsePlugboard s = Inr prs"
  shows "involOn (mkPlugboard prs)"
proof -
  from assms have p: "parseTokens (splitTokens [] s) = Inr prs" and d: "distinct (pairLetters prs)"
    by (auto simp: parsePlugboard_def split: sum.splits if_splits)
  have "\<forall>x\<in>set (pairLetters prs). x < 26 \<and> [0..<26] ! x = x"
    using parseTokens_less [OF p] by auto
  with involOn_identity d show ?thesis
    unfolding mkPlugboard_def by (rule involOn_foldl_connect)
qed

subsection \<open>Machine\<close>

lemma wfReflector_involOn: "wfReflector p \<Longrightarrow> involOn p"
proof -
  assume w: "wfReflector p"
  then have b: "isBijection p" and i: "\<forall>x<26. p ! (p ! x) = x"
    by (auto simp: wfReflector_def list_all_iff)
  from b have "length p = 26" by (simp add: isBijection_def)
  moreover have "\<forall>x<26. p ! x < 26"
    using applyPerm_less [OF b] by (simp add: applyPerm_def)
  ultimately show ?thesis using i by (simp add: involOn_iff)
qed

lemma wfMachine_stepRotors: "wfMachine m \<Longrightarrow> wfMachine (stepRotors m)"
  by (simp add: wfMachine_def stepRotors_def stepRotor_def Let_def)

lemma signalPath_less:
  assumes "wfMachine m" "x < 26"
  shows "signalPath m x < 26"
proof -
  from assms(1) have "involOn (machinePlugboard m)" by (simp add: wfMachine_def)
  then have "\<And>y. y < 26 \<Longrightarrow> swap (machinePlugboard m) y < 26"
    by (simp add: involOn_iff swap_def)
  then show ?thesis
    by (simp add: signalPath_def Let_def rotorBackward_def backward_less)
qed

lemma signalPath_involution:
  assumes wf: "wfMachine m" and x: "x < 26"
  shows "signalPath m (signalPath m x) = x"
proof -
  let ?P = "swap (machinePlugboard m)"
  let ?U = "reflect (machineReflector m)"
  from wf have bl: "isBijection (wiring (spec (left m)))"
    and bm: "isBijection (wiring (spec (middle m)))"
    and br: "isBijection (wiring (spec (right m)))"
    and iu: "involOn (machineReflector m)" and ip: "involOn (machinePlugboard m)"
    by (simp_all add: wfMachine_def)
  have P_lt: "\<And>y. y < 26 \<Longrightarrow> ?P y < 26" and PP: "\<And>y. y < 26 \<Longrightarrow> ?P (?P y) = y"
    using ip by (simp_all add: involOn_iff swap_def)
  have U_lt: "\<And>y. y < 26 \<Longrightarrow> ?U y < 26" and UU: "\<And>y. y < 26 \<Longrightarrow> ?U (?U y) = y"
    using iu by (simp_all add: involOn_iff reflect_def)
  define x1 where "x1 = ?P x"
  define x2 where "x2 = rotorForward (right m) x1"
  define x3 where "x3 = rotorForward (middle m) x2"
  define x4 where "x4 = rotorForward (left m) x3"
  define x5 where "x5 = ?U x4"
  define x6 where "x6 = rotorBackward (left m) x5"
  define x7 where "x7 = rotorBackward (middle m) x6"
  define x8 where "x8 = rotorBackward (right m) x7"
  have l1: "x1 < 26" unfolding x1_def using x by (rule P_lt)
  have l2: "x2 < 26" unfolding x2_def rotorForward_def by (rule forward_less)
  have l3: "x3 < 26" unfolding x3_def rotorForward_def by (rule forward_less)
  have l4: "x4 < 26" unfolding x4_def rotorForward_def by (rule forward_less)
  have l5: "x5 < 26" unfolding x5_def using l4 by (rule U_lt)
  have l6: "x6 < 26" unfolding x6_def rotorBackward_def by (rule backward_less)
  have l7: "x7 < 26" unfolding x7_def rotorBackward_def by (rule backward_less)
  have l8: "x8 < 26" unfolding x8_def rotorBackward_def by (rule backward_less)
  have out: "signalPath m x = ?P x8"
    by (simp add: signalPath_def Let_def x1_def x2_def x3_def x4_def x5_def x6_def x7_def x8_def)
  have s1: "?P (?P x8) = x8" using l8 by (rule PP)
  have s2: "rotorForward (right m) x8 = x7"
    unfolding x8_def rotorForward_def rotorBackward_def using br l7 by (rule forward_backward)
  have s3: "rotorForward (middle m) x7 = x6"
    unfolding x7_def rotorForward_def rotorBackward_def using bm l6 by (rule forward_backward)
  have s4: "rotorForward (left m) x6 = x5"
    unfolding x6_def rotorForward_def rotorBackward_def using bl l5 by (rule forward_backward)
  have s5: "?U x5 = x4" unfolding x5_def using l4 by (rule UU)
  have s6: "rotorBackward (left m) x4 = x3"
    unfolding x4_def rotorForward_def rotorBackward_def using bl l3 by (rule backward_forward)
  have s7: "rotorBackward (middle m) x3 = x2"
    unfolding x3_def rotorForward_def rotorBackward_def using bm l2 by (rule backward_forward)
  have s8: "rotorBackward (right m) x2 = x1"
    unfolding x2_def rotorForward_def rotorBackward_def using br l1 by (rule backward_forward)
  have s9: "?P x1 = x" unfolding x1_def using x by (rule PP)
  have "signalPath m (?P x8) = x"
    by (simp add: signalPath_def Let_def s1 s2 s3 s4 s5 s6 s7 s8 s9)
  with out show ?thesis by simp
qed

lemma validateRotor_Inr:
  "validateRotor cat r = Inr st \<Longrightarrow> \<exists>sp. lookupRotor cat (rotorName st) = Some sp"
  by (auto simp: validateRotor_def split: option.splits sum.splits)

lemma validate_buildMachine:
  assumes "validate cat raw = Inr cfg"
  shows "\<exists>m. buildMachine cat cfg = Inr m"
proof -
  obtain a b c where abc: "rotors raw = (a, b, c)" by (cases "rotors raw")
  from assms abc obtain ra rb rc rf prs where
    ra: "validateRotor cat a = Inr ra" and rb: "validateRotor cat b = Inr rb"
    and rc: "validateRotor cat c = Inr rc"
    and rf: "lookupReflector cat (reflector raw) = Some rf"
    and prs: "parsePlugboard (plugboard_pairs raw) = Inr prs"
    and cfg: "cfg = \<lparr>cfgRotors = (ra, rb, rc), cfgReflector = reflector raw,
                     cfgPlugboard = plugboard_pairs raw\<rparr>"
    by (auto simp: validate_def split: sum.splits if_splits option.splits)
  from validateRotor_Inr [OF ra] obtain sa where sa: "lookupRotor cat (rotorName ra) = Some sa" ..
  from validateRotor_Inr [OF rb] obtain sb where sb: "lookupRotor cat (rotorName rb) = Some sb" ..
  from validateRotor_Inr [OF rc] obtain sc where sc: "lookupRotor cat (rotorName rc) = Some sc" ..
  show ?thesis
    by (simp add: buildMachine_def cfg sa sb sc rf prs)
qed

lemma lookupRotor_wf:
  "wfCatalog cat \<Longrightarrow> lookupRotor cat n = Some r \<Longrightarrow> isBijection (wiring r)"
  by (auto simp: wfCatalog_def lookupRotor_def list_all_iff wfRotorSpec_def find_Some_iff)

lemma lookupReflector_wf:
  "wfCatalog cat \<Longrightarrow> lookupReflector cat n = Some p \<Longrightarrow> involOn p"
proof -
  assume wf: "wfCatalog cat" and l: "lookupReflector cat n = Some p"
  from l have "(n, p) \<in> set (reflectorCatalog cat)"
    by (auto simp: lookupReflector_def dest: map_of_SomeD)
  with wf have "wfReflector p"
    by (auto simp: wfCatalog_def list_all_iff)
  then show ?thesis by (rule wfReflector_involOn)
qed

lemma buildMachine_wf:
  assumes wf: "wfCatalog cat" and b: "buildMachine cat cfg = Inr m"
  shows "wfMachine m"
proof -
  obtain a b' c where abc: "cfgRotors cfg = (a, b', c)" by (cases "cfgRotors cfg")
  from b abc obtain sa sb sc rf prs where
    sa: "lookupRotor cat (rotorName a) = Some sa"
    and sb: "lookupRotor cat (rotorName b') = Some sb"
    and sc: "lookupRotor cat (rotorName c) = Some sc"
    and rf: "lookupReflector cat (cfgReflector cfg) = Some rf"
    and prs: "parsePlugboard (cfgPlugboard cfg) = Inr prs"
    and m: "m = \<lparr>left = mkRotorState sa a, middle = mkRotorState sb b',
                 right = mkRotorState sc c, machineReflector = rf,
                 machinePlugboard = mkPlugboard prs\<rparr>"
    by (auto simp: buildMachine_def split: sum.splits option.splits)
  show ?thesis
    using lookupRotor_wf [OF wf sa] lookupRotor_wf [OF wf sb] lookupRotor_wf [OF wf sc]
      lookupReflector_wf [OF wf rf] parsePlugboard_involOn [OF prs]
    by (simp add: wfMachine_def m mkRotorState_def)
qed

subsection \<open>encryptString\<close>

lemma encryptString_letter:
  "isLetterChar c \<Longrightarrow>
   encryptString m (c # cs)
     = (charOfLetter (fst (encryptLetter m (letterOfChar (upperChar c))))
          # fst (encryptString (snd (encryptLetter m (letterOfChar (upperChar c)))) cs),
        snd (encryptString (snd (encryptLetter m (letterOfChar (upperChar c)))) cs))"
  by (simp add: isUpper_upperChar case_prod_beta)

lemma encryptString_other:
  "\<not> isLetterChar c \<Longrightarrow>
   encryptString m (c # cs) = (c # fst (encryptString m cs), snd (encryptString m cs))"
  by (simp add: isUpper_upperChar case_prod_beta)

lemma encryptString_append:
  "encryptString m (xs @ ys)
     = (fst (encryptString m xs) @ fst (encryptString (snd (encryptString m xs)) ys),
        snd (encryptString (snd (encryptString m xs)) ys))"
proof (induction xs arbitrary: m)
  case Nil
  show ?case by simp
next
  case (Cons c cs)
  show ?case
    by (cases "isLetterChar c")
       (simp_all add: encryptString_letter encryptString_other Cons.IH
          del: encryptString.simps)
qed

lemma length_encryptString: "length (fst (encryptString m T)) = length T"
proof (induction T arbitrary: m)
  case Nil
  show ?case by simp
next
  case (Cons c cs)
  show ?case
    by (cases "isLetterChar c")
       (simp_all add: encryptString_letter encryptString_other Cons.IH
          del: encryptString.simps)
qed

lemma encryptString_other_nth:
  "i < length T \<Longrightarrow> \<not> isLetterChar (T ! i) \<Longrightarrow> fst (encryptString m T) ! i = T ! i"
proof (induction T arbitrary: m i)
  case Nil
  then show ?case by simp
next
  case (Cons c cs)
  show ?case
  proof (cases i)
    case 0
    with Cons.prems show ?thesis
      by (simp add: encryptString_other del: encryptString.simps)
  next
    case (Suc j)
    with Cons.prems have j: "j < length cs" "\<not> isLetterChar (cs ! j)" by simp_all
    show ?thesis
      using Cons.IH [OF j] Suc
      by (cases "isLetterChar c")
         (simp_all add: encryptString_letter encryptString_other del: encryptString.simps)
  qed
qed

lemma encryptString_toUpperCase: "encryptString m (toUpperCase T) = encryptString m T"
proof (induction T arbitrary: m)
  case Nil
  show ?case by (simp add: toUpperCase_def)
next
  case (Cons c cs)
  have IH: "\<And>m. encryptString m (map upperChar cs) = encryptString m cs"
    using Cons.IH by (simp add: toUpperCase_def)
  show ?case
  proof (cases "isLetterChar c")
    case True
    then have "isLetterChar (upperChar c)"
      using isUpper_upperChar [of c] by (simp add: isLetterChar_def)
    with True show ?thesis
      by (simp add: toUpperCase_def encryptString_letter upperChar_idem IH
          del: encryptString.simps)
  next
    case False
    then show ?thesis
      by (simp add: toUpperCase_def encryptString_other upperChar_other IH
          del: encryptString.simps)
  qed
qed

lemma encryptLetter_less:
  "wfMachine m \<Longrightarrow> x < 26 \<Longrightarrow> fst (encryptLetter m x) < 26"
  by (simp add: encryptLetter_def Let_def signalPath_less wfMachine_stepRotors)

lemma wfMachine_encryptLetter: "wfMachine m \<Longrightarrow> wfMachine (snd (encryptLetter m x))"
  by (simp add: encryptLetter_def Let_def wfMachine_stepRotors)

lemma encryptString_filter:
  "wfMachine m \<Longrightarrow>
   encryptString m (filter isLetterChar T)
     = (filter isLetterChar (fst (encryptString m T)), snd (encryptString m T))"
proof (induction T arbitrary: m)
  case Nil
  then show ?case by simp
next
  case (Cons c cs)
  show ?case
  proof (cases "isLetterChar c")
    case True
    let ?x = "letterOfChar (upperChar c)"
    from True have u: "isUpper (upperChar c)" by (simp add: isUpper_upperChar)
    then have x: "?x < 26" by (rule letterOfChar_less)
    have out: "isLetterChar (charOfLetter (fst (encryptLetter m ?x)))"
      using encryptLetter_less [OF Cons.prems x]
      by (simp add: isLetterChar_def isUpper_charOfLetter)
    show ?thesis
      using Cons.IH [OF wfMachine_encryptLetter [OF Cons.prems, of ?x]] True out
      by (simp add: encryptString_letter del: encryptString.simps)
  next
    case False
    show ?thesis
      using Cons.IH [OF Cons.prems] False
      by (simp add: encryptString_other del: encryptString.simps)
  qed
qed

lemma encryptLetter_reciprocal:
  assumes "wfMachine m" "x < 26"
  shows "encryptLetter m (fst (encryptLetter m x)) = (x, snd (encryptLetter m x))"
  using signalPath_involution [OF wfMachine_stepRotors [OF assms(1)] assms(2)]
  by (simp add: encryptLetter_def Let_def)

lemma encryptString_reciprocal:
  "wfMachine m \<Longrightarrow> list_all isLetterChar T \<Longrightarrow>
   encryptString m (fst (encryptString m T)) = (toUpperCase T, snd (encryptString m T))"
proof (induction T arbitrary: m)
  case Nil
  then show ?case by (simp add: toUpperCase_def)
next
  case (Cons c cs)
  let ?x = "letterOfChar (upperChar c)"
  let ?y = "fst (encryptLetter m ?x)"
  let ?m' = "snd (encryptLetter m ?x)"
  from Cons.prems have c: "isLetterChar c" and cs: "list_all isLetterChar cs" by simp_all
  from c have u: "isUpper (upperChar c)" by (simp add: isUpper_upperChar)
  then have x: "?x < 26" by (rule letterOfChar_less)
  have y: "?y < 26" using Cons.prems(1) x by (rule encryptLetter_less)
  have wf': "wfMachine ?m'" using Cons.prems(1) by (rule wfMachine_encryptLetter)
  have yu: "isUpper (charOfLetter ?y)" using y by (rule isUpper_charOfLetter)
  then have yl: "isLetterChar (charOfLetter ?y)" by (simp add: isLetterChar_def)
  have fwd: "encryptString m (c # cs)
               = (charOfLetter ?y # fst (encryptString ?m' cs), snd (encryptString ?m' cs))"
    using c by (rule encryptString_letter)
  have recip: "encryptLetter m ?y = (?x, ?m')"
    using Cons.prems(1) x by (rule encryptLetter_reciprocal)
  have "encryptString m (charOfLetter ?y # fst (encryptString ?m' cs))
          = (charOfLetter ?x # toUpperCase cs, snd (encryptString ?m' cs))"
    using recip Cons.IH [OF wf' cs]
    by (simp add: encryptString_letter [OF yl] upperChar_upper [OF yu]
        letterOfChar_charOfLetter [OF y] del: encryptString.simps)
  then show ?case
    using u by (simp add: fwd toUpperCase_def charOfLetter_letterOfChar del: encryptString.simps)
qed

subsection \<open>Evaluation on the built-in catalog\<close>

lemma wiring_rotorI:
  "wiring rotorI = [4, 10, 12, 5, 11, 6, 3, 16, 21, 25, 13, 19, 14, 22, 24, 7, 23, 20, 18,
                    15, 0, 8, 1, 17, 2, 9]"
  by (simp add: rotorI_def lettersOf_def letterOfChar_def)

lemma wiring_rotorII:
  "wiring rotorII = [0, 9, 3, 10, 18, 8, 17, 20, 23, 1, 11, 7, 22, 19, 12, 2, 16, 6, 25, 13,
                     15, 24, 5, 21, 14, 4]"
  by (simp add: rotorII_def lettersOf_def letterOfChar_def)

lemma wiring_rotorIII:
  "wiring rotorIII = [1, 3, 5, 7, 9, 11, 2, 15, 17, 19, 23, 21, 25, 13, 24, 4, 8, 22, 6, 0,
                      10, 12, 20, 18, 16, 14]"
  by (simp add: rotorIII_def lettersOf_def letterOfChar_def)

lemma table_reflectorB:
  "reflectorB = [24, 17, 20, 7, 16, 18, 11, 3, 15, 23, 13, 6, 14, 10, 12, 8, 4, 1, 5, 25, 2,
                 22, 21, 9, 0, 19]"
  by (simp add: reflectorB_def lettersOf_def letterOfChar_def)

lemma notch_rotors:
  "notch rotorI = [16]" "notch rotorII = [4]" "notch rotorIII = [21]"
  by (simp_all add: rotorI_def rotorII_def rotorIII_def lettersOf_def letterOfChar_def)

lemma wfCatalog_historical: "wfCatalog historicalCatalog"
  by code_simp

lemma validate_default: "validate historicalCatalog getDefaultConfig = Inr defaultMachineConfig"
  by code_simp

lemma buildMachine_default:
  "buildMachine historicalCatalog defaultMachineConfig = Inr (machineAt 0 0 0)"
  by (simp add: buildMachine_def defaultMachineConfig_def historicalCatalog_def lookupRotor_def
      lookupReflector_def rotorI_def rotorII_def rotorIII_def parsePlugboard_def pairLetters_def
      mkPlugboard_def mkRotorState_def machineAt_def)

lemma char_of_upper:
  "char_of (65::nat) = CHR ''A''" "char_of (66::nat) = CHR ''B''" "char_of (67::nat) = CHR ''C''"
  "char_of (68::nat) = CHR ''D''" "char_of (69::nat) = CHR ''E''" "char_of (70::nat) = CHR ''F''"
  "char_of (71::nat) = CHR ''G''" "char_of (72::nat) = CHR ''H''" "char_of (73::nat) = CHR ''I''"
  "char_of (74::nat) = CHR ''J''" "char_of (75::nat) = CHR ''K''" "char_of (76::nat) = CHR ''L''"
  "char_of (77::nat) = CHR ''M''" "char_of (78::nat) = CHR ''N''" "char_of (79::nat) = CHR ''O''"
  "char_of (80::nat) = CHR ''P''" "char_of (81::nat) = CHR ''Q''" "char_of (82::nat) = CHR ''R''"
  "char_of (83::nat) = CHR ''S''" "char_of (84::nat) = CHR ''T''" "char_of (85::nat) = CHR ''U''"
  "char_of (86::nat) = CHR ''V''" "char_of (87::nat) = CHR ''W''" "char_of (88::nat) = CHR ''X''"
  "char_of (89::nat) = CHR ''Y''" "char_of (90::nat) = CHR ''Z''"
  by code_simp+

lemma fst_encryptString_Nil: "fst (encryptString m []) = []"
  by simp

lemma fst_encryptString_Cons:
  "fst (encryptString m (c # cs))
     = (if isLetterChar c
        then charOfLetter (signalPath (stepRotors m) (letterOfChar (upperChar c)))
               # fst (encryptString (stepRotors m) cs)
        else c # fst (encryptString m cs))"
  by (simp add: encryptString_letter encryptString_other encryptLetter_def Let_def
      del: encryptString.simps)

lemma stepRotors_closed:
  "stepRotors m
     = m\<lparr>left := (if rotorAtNotch (middle m) then stepRotor (left m) else left m),
         middle := (if rotorAtNotch (middle m) \<or> rotorAtNotch (right m)
                    then stepRotor (middle m) else middle m),
         right := stepRotor (right m)\<rparr>"
  by (simp add: stepRotors_def Let_def)

lemma stepRotors_machineAt:
  "stepRotors (machineAt l m r)
     = machineAt (if m = 4 then step l else l)
                 (if m = 4 \<or> r = 21 then step m else m)
                 (step r)"
  by (simp add: stepRotors_closed machineAt_def rotorAtNotch_def isAtNotch_def stepRotor_def
      notch_rotors)

lemma signalPath_closed:
  "signalPath m x
     = swap (machinePlugboard m)
         (rotorBackward (right m) (rotorBackward (middle m) (rotorBackward (left m)
           (reflect (machineReflector m)
             (rotorForward (left m) (rotorForward (middle m) (rotorForward (right m)
               (swap (machinePlugboard m) x))))))))"
  by (simp add: signalPath_def Let_def)

lemma forward_closed:
  "forward r x pos rng
     = nat ((int (wiring r ! nat ((int x + int pos - int rng) mod 26)) - int pos + int rng)
            mod 26)"
  by (simp add: forward_def Let_def applyPerm_def)

lemma backward_closed:
  "backward r x pos rng
     = nat ((int (indexOf (wiring r) (nat ((int x + int pos - int rng) mod 26))) - int pos
             + int rng) mod 26)"
  by (simp add: backward_def Let_def applyInverse_def)

lemma signalPath_machineAt:
  "signalPath (machineAt l m r) x
     = [0..<26] ! (backward rotorIII (backward rotorII (backward rotorI
         (reflectorB ! (forward rotorI (forward rotorII (forward rotorIII ([0..<26] ! x) r 0) m 0)
            l 0)) l 0) m 0) r 0)"
  by (simp add: signalPath_closed machineAt_def rotorForward_def rotorBackward_def swap_def
      reflect_def)

lemmas machine_eval =
  fst_encryptString_Nil fst_encryptString_Cons stepRotors_machineAt signalPath_machineAt
  forward_closed backward_closed step_def
  wiring_rotorI wiring_rotorII wiring_rotorIII table_reflectorB
  isLetterChar_def isUpper_def isLower_def upperChar_def letterOfChar_def charOfLetter_def
  char_of_upper

subsection \<open>The validation boundary on the built-in catalog\<close>

lemma validate_duplicate_rotor:
  "validate historicalCatalog
     (getDefaultConfig\<lparr>rotors := (\<lparr>name = ''I'', position = ''A'', ring = ''A''\<rparr>,
                                   \<lparr>name = ''I'', position = ''A'', ring = ''A''\<rparr>,
                                   \<lparr>name = ''III'', position = ''A'', ring = ''A''\<rparr>)\<rparr>)
   = Inl DuplicateRotor"
  by code_simp

lemma validate_plugboard_reuse:
  "validate historicalCatalog (getDefaultConfig\<lparr>plugboard_pairs := ''AB AC''\<rparr>)
   = Inl InvalidPlugboard"
  by code_simp

lemma validate_unknown_reflector:
  "validate historicalCatalog (getDefaultConfig\<lparr>reflector := ''Z''\<rparr>)
   = Inl UnknownReflector"
  by code_simp

subsection \<open>The engine's properties\<close>

lemma encryptStringFrom_default:
  "encryptStringFrom historicalCatalog defaultMachineConfig T
     = Inr (fst (encryptString (machineAt 0 0 0) T))"
  by (simp add: encryptStringFrom_def buildMachine_default)

lemma encrypt_AAAAA:
  "encryptStringFrom historicalCatalog defaultMachineConfig ''AAAAA'' = Inr ''BDZGO''"
  unfolding encryptStringFrom_default by (simp add: machine_eval del: encryptString.simps)

lemma encrypt_HEL:
  "encryptStringFrom historicalCatalog defaultMachineConfig ''HEL'' = Inr ''ILB''"
  unfolding encryptStringFrom_default by (simp add: machine_eval del: encryptString.simps)

lemma encrypt_HELLO:
  "encryptStringFrom historicalCatalog defaultMachineConfig ''HELLO'' = Inr ''ILBDA''"
  unfolding encryptStringFrom_default by (simp add: machine_eval del: encryptString.simps)

lemma encrypt_hello:
  "encryptStringFrom historicalCatalog defaultMachineConfig ''hello'' = Inr ''ILBDA''"
  unfolding encryptStringFrom_default by (simp add: machine_eval del: encryptString.simps)

lemma encrypt_ILBDA:
  "encryptStringFrom historicalCatalog defaultMachineConfig ''ILBDA'' = Inr ''HELLO''"
  unfolding encryptStringFrom_default by (simp add: machine_eval del: encryptString.simps)

lemma encrypt_HELLO_WORLD:
  "encryptStringFrom historicalCatalog defaultMachineConfig ''HELLO WORLD'' = Inr ''ILBDA AMTAZ''"
  unfolding encryptStringFrom_default by (simp add: machine_eval del: encryptString.simps)

lemma encrypt_HELLOWORLD:
  "encryptStringFrom historicalCatalog defaultMachineConfig ''HELLOWORLD'' = Inr ''ILBDAAMTAZ''"
  unfolding encryptStringFrom_default by (simp add: machine_eval del: encryptString.simps)

text \<open>
  Claim C2: for a validated configuration and any text, the call returns a ciphertext,
  through \<open>encryptString(C, T)\<close> as through the function boundary of the engine, and
  every run of \<open>encryptString\<close> on a fresh Machine built from that configuration
  returns this same string.
\<close>

theorem encryptString_deterministic:
  "validate cat raw = Inr cfg \<Longrightarrow>
   \<exists>out. encryptStringFrom cat cfg T = Inr out
     \<and> enigma_process_string cat raw T = Inr out
     \<and> (\<forall>m1 m2. buildMachine cat cfg = Inr m1 \<and> buildMachine cat cfg = Inr m2
           \<longrightarrow> fst (encryptString m1 T) = out \<and> fst (encryptString m2 T) = out)"
proof -
  assume v: "validate cat raw = Inr cfg"
  from validate_buildMachine [OF v] obtain m where m: "buildMachine cat cfg = Inr m" ..
  show ?thesis
    by (rule exI [of _ "fst (encryptString m T)"])
       (simp add: encryptStringFrom_def enigma_process_string_def v m)
qed

theorem encryptString_deterministic_witness:
  "validate historicalCatalog getDefaultConfig = Inr defaultMachineConfig
   \<and> encryptStringFrom historicalCatalog defaultMachineConfig ''AAAAA'' = Inr ''BDZGO''
   \<and> enigma_process_string historicalCatalog getDefaultConfig ''AAAAA'' = Inr ''BDZGO''"
  using encryptString_deterministic [OF validate_default, of "''AAAAA''"]
  by (simp add: validate_default encrypt_AAAAA)

text \<open>
  Claim C3: for a validated configuration, when \<open>T1\<close> is a strict prefix of \<open>T2\<close>
  (made of letters or not), both calls return a ciphertext and the ciphertext of
  \<open>T1\<close>, as long as \<open>T1\<close>, is a prefix of the ciphertext of \<open>T2\<close>: each call
  starts from the positions of the configuration, none from where an earlier call
  stopped.
\<close>

theorem encryptString_prefix_consistent:
  "validate cat raw = Inr cfg \<Longrightarrow> strict_prefix T1 T2 \<Longrightarrow>
   \<exists>c1 c2. encryptStringFrom cat cfg T1 = Inr c1
     \<and> encryptStringFrom cat cfg T2 = Inr c2
     \<and> prefix c1 c2 \<and> length c1 = length T1"
proof -
  assume v: "validate cat raw = Inr cfg" and p: "strict_prefix T1 T2"
  from validate_buildMachine [OF v] obtain m where m: "buildMachine cat cfg = Inr m" ..
  from p obtain ys where T2: "T2 = T1 @ ys" by (auto simp: strict_prefix_def prefix_def)
  have "prefix (fst (encryptString m T1)) (fst (encryptString m T2))"
    by (simp add: T2 encryptString_append)
  then show ?thesis
    by (simp add: encryptStringFrom_def m length_encryptString)
qed

theorem encryptString_prefix_consistent_witness:
  "validate historicalCatalog getDefaultConfig = Inr defaultMachineConfig
   \<and> strict_prefix ''HEL'' ''HELLO''
   \<and> encryptStringFrom historicalCatalog defaultMachineConfig ''HEL'' = Inr ''ILB''
   \<and> encryptStringFrom historicalCatalog defaultMachineConfig ''HELLO'' = Inr ''ILBDA''
   \<and> prefix ''ILB'' ''ILBDA''"
proof -
  have p: "strict_prefix ''HEL'' ''HELLO''" by (simp add: strict_prefix_def)
  show ?thesis
    using encryptString_prefix_consistent [OF validate_default p] p
    by (simp add: validate_default encrypt_HEL encrypt_HELLO)
qed

text \<open>
  Claim C4: for a validated configuration over a well-formed catalog and any text
  \<open>T\<close>, the call returns a string \<open>out\<close> of the length of \<open>T\<close>; every character
  of \<open>T\<close> that is not a letter stands unchanged at its place in \<open>out\<close>; the letters
  of \<open>out\<close> are the encryption of the letters of \<open>T\<close> alone, ending in the same
  Machine, so the stepping goes on across the other characters as if they were absent;
  the text in upper case is encrypted to the same string; a character that is not a
  letter is emitted as it is and hands the Machine on without a step, and a letter goes
  through \<open>encryptLetter\<close> in upper case.
\<close>

theorem encryptString_passthrough_positions:
  "validate cat raw = Inr cfg \<Longrightarrow> wfCatalog cat \<Longrightarrow>
   \<exists>m out m'. buildMachine cat cfg = Inr m \<and> encryptString m T = (out, m')
     \<and> encryptStringFrom cat cfg T = Inr out
     \<and> length out = length T
     \<and> (\<forall>i<length T. \<not> isLetterChar (T ! i) \<longrightarrow> out ! i = T ! i)
     \<and> encryptString m (filter isLetterChar T) = (filter isLetterChar out, m')
     \<and> encryptString m (toUpperCase T) = (out, m')
     \<and> (\<forall>\<mu> c cs. \<not> isLetterChar c \<longrightarrow>
           encryptString \<mu> (c # cs)
             = (c # fst (encryptString \<mu> cs), snd (encryptString \<mu> cs)))
     \<and> (\<forall>\<mu> c cs. isLetterChar c \<longrightarrow>
           encryptString \<mu> (c # cs)
             = (charOfLetter (fst (encryptLetter \<mu> (letterOfChar (upperChar c))))
                  # fst (encryptString (snd (encryptLetter \<mu> (letterOfChar (upperChar c)))) cs),
                snd (encryptString (snd (encryptLetter \<mu> (letterOfChar (upperChar c)))) cs)))"
proof -
  assume v: "validate cat raw = Inr cfg" and wf: "wfCatalog cat"
  from validate_buildMachine [OF v] obtain m where m: "buildMachine cat cfg = Inr m" ..
  have wm: "wfMachine m" using wf m by (rule buildMachine_wf)
  obtain out m' where r: "encryptString m T = (out, m')" by (cases "encryptString m T")
  have 1: "encryptStringFrom cat cfg T = Inr out"
    by (simp add: encryptStringFrom_def m r)
  have 2: "length out = length T"
    using length_encryptString [of m T] by (simp add: r)
  have 3: "\<forall>i<length T. \<not> isLetterChar (T ! i) \<longrightarrow> out ! i = T ! i"
    using encryptString_other_nth [of _ T m] by (simp add: r)
  have 4: "encryptString m (filter isLetterChar T) = (filter isLetterChar out, m')"
    using encryptString_filter [OF wm, of T] by (simp add: r)
  have 5: "encryptString m (toUpperCase T) = (out, m')"
    by (simp add: encryptString_toUpperCase r)
  have 6: "\<forall>\<mu> c cs. \<not> isLetterChar c \<longrightarrow>
           encryptString \<mu> (c # cs)
             = (c # fst (encryptString \<mu> cs), snd (encryptString \<mu> cs))"
    using encryptString_other by blast
  have 7: "\<forall>\<mu> c cs. isLetterChar c \<longrightarrow>
           encryptString \<mu> (c # cs)
             = (charOfLetter (fst (encryptLetter \<mu> (letterOfChar (upperChar c))))
                  # fst (encryptString (snd (encryptLetter \<mu> (letterOfChar (upperChar c)))) cs),
                snd (encryptString (snd (encryptLetter \<mu> (letterOfChar (upperChar c)))) cs))"
    using encryptString_letter by blast
  from m r 1 2 3 4 5 6 7 show ?thesis by blast
qed

theorem encryptString_passthrough_positions_witness:
  "validate historicalCatalog getDefaultConfig = Inr defaultMachineConfig
   \<and> wfCatalog historicalCatalog
   \<and> encryptStringFrom historicalCatalog defaultMachineConfig ''HELLO WORLD''
       = Inr ''ILBDA AMTAZ''
   \<and> encryptStringFrom historicalCatalog defaultMachineConfig ''HELLOWORLD''
       = Inr ''ILBDAAMTAZ''
   \<and> length ''ILBDA AMTAZ'' = length ''HELLO WORLD''
   \<and> \<not> isLetterChar (''HELLO WORLD'' ! 5)
   \<and> ''ILBDA AMTAZ'' ! 5 = ''HELLO WORLD'' ! 5
   \<and> filter isLetterChar ''ILBDA AMTAZ'' = ''ILBDAAMTAZ''"
proof -
  have n: "\<not> isLetterChar (''HELLO WORLD'' ! 5)" by code_simp
  have f: "filter isLetterChar ''ILBDA AMTAZ'' = ''ILBDAAMTAZ''" by code_simp
  show ?thesis
    using encryptString_passthrough_positions
      [OF validate_default wfCatalog_historical, of "''HELLO WORLD''"] n f
    by (simp add: validate_default wfCatalog_historical encrypt_HELLO_WORLD
        encrypt_HELLOWORLD)
qed

text \<open>
  Claim C5, as stated, fails on a text in lower case: the rotors I, II, III at A, A, A
  with reflector B turn "hello" into "ILBDA", and "ILBDA" into "HELLO", which is not
  the text the first call was given.
\<close>

theorem encryptString_lowercase_not_reproduced:
  "validate historicalCatalog getDefaultConfig = Inr defaultMachineConfig
   \<and> wfCatalog historicalCatalog
   \<and> list_all isLetterChar ''hello''
   \<and> encryptStringFrom historicalCatalog defaultMachineConfig ''hello'' = Inr ''ILBDA''
   \<and> encryptStringFrom historicalCatalog defaultMachineConfig ''ILBDA'' = Inr ''HELLO''
   \<and> ''HELLO'' \<noteq> ''hello''"
proof -
  have "list_all isLetterChar ''hello''" by code_simp
  then show ?thesis
    by (simp add: validate_default wfCatalog_historical encrypt_hello encrypt_ILBDA)
qed

text \<open>
  Claim C5, amended: for a validated configuration over a well-formed catalog and a text
  \<open>T\<close> made of letters only, encrypting the ciphertext of \<open>T\<close> from the same
  configuration gives \<open>T\<close> in upper case, hence \<open>T\<close> itself when \<open>T\<close> is in
  upper case.
\<close>

theorem encryptString_self_reciprocal:
  "validate cat raw = Inr cfg \<Longrightarrow> wfCatalog cat \<Longrightarrow> list_all isLetterChar T \<Longrightarrow>
   \<exists>ct. encryptStringFrom cat cfg T = Inr ct
     \<and> encryptStringFrom cat cfg ct = Inr (toUpperCase T)
     \<and> (list_all isUpper T \<longrightarrow> toUpperCase T = T)"
proof -
  assume v: "validate cat raw = Inr cfg" and wf: "wfCatalog cat"
    and T: "list_all isLetterChar T"
  from validate_buildMachine [OF v] obtain m where m: "buildMachine cat cfg = Inr m" ..
  have wm: "wfMachine m" using wf m by (rule buildMachine_wf)
  have up: "list_all isUpper T \<longrightarrow> toUpperCase T = T"
    by (simp add: toUpperCase_def list_all_iff map_idI upperChar_upper)
  show ?thesis
    using encryptString_reciprocal [OF wm T] up
    by (simp add: encryptStringFrom_def m)
qed

theorem encryptString_self_reciprocal_witness:
  "validate historicalCatalog getDefaultConfig = Inr defaultMachineConfig
   \<and> wfCatalog historicalCatalog
   \<and> list_all isLetterChar ''HELLO''
   \<and> encryptStringFrom historicalCatalog defaultMachineConfig ''HELLO'' = Inr ''ILBDA''
   \<and> encryptStringFrom historicalCatalog defaultMachineConfig ''ILBDA'' = Inr ''HELLO''
   \<and> list_all isUpper ''HELLO''"
proof -
  have l: "list_all isLetterChar ''HELLO''" by code_simp
  have u: "list_all isUpper ''HELLO''" by code_simp
  show ?thesis
    using encryptString_self_reciprocal [OF validate_default wfCatalog_historical l] l u
    by (simp add: validate_default wfCatalog_historical encrypt_HELLO encrypt_ILBDA)
qed

text \<open>
  Claim C6: the stepping transition tests both notches on the positions before the
  step: the left rotor steps if the middle rotor is at its notch, the middle rotor steps
  if the middle or the right rotor is at its notch, the right rotor always steps, a step
  being one position forward modulo 26; \<open>encryptLetter\<close> makes this transition before
  it transforms the letter. When the right rotor is at its notch and the middle rotor
  one step before its own, the middle rotor steps on two consecutive letters.
\<close>

theorem stepRotors_double_stepping:
  "stepRotors m
     = m\<lparr>left := (if rotorAtNotch (middle m) then stepRotor (left m) else left m),
         middle := (if rotorAtNotch (middle m) \<or> rotorAtNotch (right m)
                    then stepRotor (middle m) else middle m),
         right := stepRotor (right m)\<rparr>
   \<and> offset (stepRotor r) = (offset r + 1) mod 26
   \<and> encryptLetter m x = (signalPath (stepRotors m) x, stepRotors m)
   \<and> (rotorAtNotch (right m) \<and> rotorAtNotch (stepRotor (middle m)) \<longrightarrow>
        offset (middle (stepRotors m)) = step (offset (middle m))
        \<and> offset (middle (stepRotors (stepRotors m))) = step (step (offset (middle m))))"
  by (simp add: stepRotors_def stepRotor_def Let_def step_def encryptLetter_def)

theorem stepRotors_double_stepping_witness:
  "rotorAtNotch (right (machineAt 0 3 21))
   \<and> rotorAtNotch (stepRotor (middle (machineAt 0 3 21)))
   \<and> stepRotors (machineAt 0 3 21) = machineAt 0 4 22
   \<and> stepRotors (stepRotors (machineAt 0 3 21)) = machineAt 1 5 23
   \<and> offset (middle (machineAt 0 3 21)) = 3
   \<and> offset (middle (stepRotors (machineAt 0 3 21))) = 4
   \<and> offset (middle (stepRotors (stepRotors (machineAt 0 3 21)))) = 5"
proof -
  have a: "rotorAtNotch (right (machineAt 0 3 21))"
    by (simp add: machineAt_def rotorAtNotch_def isAtNotch_def notch_rotors)
  have b: "rotorAtNotch (stepRotor (middle (machineAt 0 3 21)))"
    by (simp add: machineAt_def rotorAtNotch_def isAtNotch_def notch_rotors stepRotor_def
        step_def)
  have s1: "stepRotors (machineAt 0 3 21) = machineAt 0 4 22"
    by (simp add: stepRotors_machineAt step_def)
  have s2: "stepRotors (machineAt 0 4 22) = machineAt 1 5 23"
    by (simp add: stepRotors_machineAt step_def)
  have o: "\<And>l m r. offset (middle (machineAt l m r)) = m"
    by (simp add: machineAt_def)
  have "offset (middle (stepRotors (machineAt 0 3 21)))
          = step (offset (middle (machineAt 0 3 21)))
        \<and> offset (middle (stepRotors (stepRotors (machineAt 0 3 21))))
          = step (step (offset (middle (machineAt 0 3 21))))"
    using stepRotors_double_stepping [of "machineAt 0 3 21"] a b by blast
  then show ?thesis
    using a b by (simp add: s1 s2 o)
qed

end
